theory Spec2Isabelle
  imports Complex_Main
begin

section \<open>Names and their normal form\<close>

text \<open>
  The script \<^verbatim>\<open>scripts/earthly_name_consistency.py\<close> compares the library name a
  \<^verbatim>\<open>Cargo.toml\<close> declares with the artifact name the \<^verbatim>\<open>Earthfile\<close> beside it saves.
  Python strings are modelled as \<^typ>\<open>string\<close>; a \<^typ>\<open>char\<close> stands for the code
  point with the same number (0 to 255). On that range \<^verbatim>\<open>str.lower\<close> moves exactly the
  ASCII capitals and the Latin-1 capitals 0xC0 to 0xDE other than the multiplication sign
  0xD7, each by 32.
\<close>

definition is_upper :: "char \<Rightarrow> bool" where
  "is_upper c =
     (let n = (of_char c :: nat)
      in n \<noteq> 215 \<and> ((65 \<le> n \<and> n \<le> 90) \<or> (192 \<le> n \<and> n \<le> 222)))"

definition lower_char :: "char \<Rightarrow> char" where
  "lower_char c = (if is_upper c then char_of ((of_char c :: nat) + 32) else c)"

definition lower :: "string \<Rightarrow> string" where
  "lower s = map lower_char s"

text \<open>\<^verbatim>\<open>s.replace(old, new)\<close> for one-character \<^verbatim>\<open>old\<close> and \<^verbatim>\<open>new\<close>.\<close>

primrec replace :: "char \<Rightarrow> char \<Rightarrow> string \<Rightarrow> string" where
  "replace old new [] = []"
| "replace old new (c # cs) = (if c = old then new else c) # replace old new cs"

text \<open>
  \<^verbatim>\<open>
  def normalize(name: str | None):
      if not name:
          return None
      return name.replace("-", "_").lower()
  \<close>
  The argument is \<^verbatim>\<open>None\<close> or a string; \<^verbatim>\<open>not name\<close> holds for \<^verbatim>\<open>None\<close> and for the
  empty string.
\<close>

definition normalize_name :: "string option \<Rightarrow> string option" where
  "normalize_name name =
     (case name of
        None \<Rightarrow> None
      | Some s \<Rightarrow> if s = [] then None else Some (lower (replace (CHR ''-'') (CHR ''_'') s)))"

section \<open>The Earthfile scanner\<close>

text \<open>
  \<^verbatim>\<open>EARTHLY_RE = re.compile(r"(?:--out=|SAVE ARTIFACT )([A-Za-z0-9_-]+)\.wasm")\<close>

  The matcher below is the backtracking search of Python's \<^verbatim>\<open>re\<close> written out for this
  pattern: \<open>lit\<close> matches a literal and returns the rest of the text, \<open>name_char\<close> is the
  character class, \<open>give_back\<close> is the greedy \<^verbatim>\<open>+\<close> (the longest run first, then one
  character less at a time, never fewer than one) followed by the literal \<^verbatim>\<open>.wasm\<close>,
  \<open>match_here\<close> tries the two alternatives in their order at one position, and
  \<open>EARTHLY_RE_search\<close>, the method \<^verbatim>\<open>search\<close> of the compiled pattern, tries every
  position from the left, the end of the text included, and returns group 1 of the first
  match.
\<close>

definition name_char :: "char \<Rightarrow> bool" where
  "name_char c =
     (let n = (of_char c :: nat)
      in (65 \<le> n \<and> n \<le> 90) \<or> (97 \<le> n \<and> n \<le> 122) \<or> (48 \<le> n \<and> n \<le> 57)
         \<or> c = CHR ''_'' \<or> c = CHR ''-'')"

primrec lit :: "string \<Rightarrow> string \<Rightarrow> string option" where
  "lit [] s = Some s"
| "lit (p # ps) s =
     (case s of [] \<Rightarrow> None | c # cs \<Rightarrow> if c = p then lit ps cs else None)"

primrec give_back :: "string \<Rightarrow> nat \<Rightarrow> string option" where
  "give_back r 0 = None"
| "give_back r (Suc k) =
     (case lit ''.wasm'' (drop (Suc k) r) of
        Some rest \<Rightarrow> Some (take (Suc k) r)
      | None \<Rightarrow> give_back r k)"

definition name_then_wasm :: "string \<Rightarrow> string option" where
  "name_then_wasm r = give_back r (length (takeWhile name_char r))"

definition alternative :: "string \<Rightarrow> string \<Rightarrow> string option" where
  "alternative p s = (case lit p s of None \<Rightarrow> None | Some r \<Rightarrow> name_then_wasm r)"

definition match_here :: "string \<Rightarrow> string option" where
  "match_here s =
     (case alternative ''--out='' s of
        Some n \<Rightarrow> Some n
      | None \<Rightarrow> alternative ''SAVE ARTIFACT '' s)"

primrec EARTHLY_RE_search :: "string \<Rightarrow> string option" where
  "EARTHLY_RE_search [] = match_here []"
| "EARTHLY_RE_search (c # cs) =
     (case match_here (c # cs) of Some n \<Rightarrow> Some n | None \<Rightarrow> EARTHLY_RE_search cs)"


text \<open>
  One module directory as the walk \<^verbatim>\<open>ROOT.rglob("Cargo.toml")\<close> finds it: \<open>parent\<close> is
  the text of \<^verbatim>\<open>cargo.parent\<close>, \<open>cargo_toml\<close> what \<^verbatim>\<open>cargo.read_text()\<close> returns, and
  \<open>earthfile\<close> the text of the file \<^verbatim>\<open>Earthfile\<close> in that directory, \<open>None\<close> when
  \<^verbatim>\<open>ef.exists()\<close> is false. The files are taken to be readable text files.
\<close>

record module_dir =
  parent :: string
  cargo_toml :: string
  earthfile :: "string option"

text \<open>
  \<^verbatim>\<open>
  def earthly_name(dir):
      ef = dir / "Earthfile"
      if not ef.exists():
          return None
      match = EARTHLY_RE.search(ef.read_text())
      return match.group(1) if match else None
  \<close>
\<close>

definition earthly_name :: "module_dir \<Rightarrow> string option" where
  "earthly_name dir =
     (case earthfile dir of
        None \<Rightarrow> None
      | Some text \<Rightarrow> EARTHLY_RE_search text)"

section \<open>The manifest parser\<close>

text \<open>
  The values \<^verbatim>\<open>tomllib.loads\<close> builds: strings, integers, floats, booleans, dates and
  times, arrays (Python lists) and tables (Python dicts, here association lists read
  with \<^const>\<open>map_of\<close>).
\<close>

datatype pyfloat = Finite rat | PosInf | NegInf | NaN

datatype toml =
    TString string
  | TInteger int
  | TFloat pyfloat
  | TBoolean bool
  | TDatetime
  | TArray "toml list"
  | TTable "(string \<times> toml) list"

type_synonym table = "(string \<times> toml) list"

text \<open>The exceptions the script can run into.\<close>

datatype exn = TOMLDecodeError | KeyError string | TypeError | AttributeError

text \<open>Python's truth value of a parsed value, and of a value that may be \<^verbatim>\<open>None\<close>.\<close>

fun truthy :: "toml \<Rightarrow> bool" where
  "truthy (TString s) = (s \<noteq> [])"
| "truthy (TInteger i) = (i \<noteq> 0)"
| "truthy (TFloat f) = (f \<noteq> Finite 0)"
| "truthy (TBoolean b) = b"
| "truthy TDatetime = True"
| "truthy (TArray xs) = (xs \<noteq> [])"
| "truthy (TTable kvs) = (kvs \<noteq> [])"

fun truthy_opt :: "toml option \<Rightarrow> bool" where
  "truthy_opt None = False"
| "truthy_opt (Some v) = truthy v"

text \<open>
  \<^verbatim>\<open>needle in v\<close> for a string \<^verbatim>\<open>needle\<close>: membership in a list, a substring test on
  a string, a key test on a dict, and a \<^verbatim>\<open>TypeError\<close> on a value that is not a container.
\<close>

primrec substring :: "string \<Rightarrow> string \<Rightarrow> bool" where
  "substring needle [] = (needle = [])"
| "substring needle (c # cs) =
     (case lit needle (c # cs) of Some rest \<Rightarrow> True | None \<Rightarrow> substring needle cs)"

fun py_in :: "string \<Rightarrow> toml \<Rightarrow> exn + bool" where
  "py_in needle (TArray xs) = Inr (TString needle \<in> set xs)"
| "py_in needle (TString s) = Inr (substring needle s)"
| "py_in needle (TTable kvs) = Inr (map_of kvs needle \<noteq> None)"
| "py_in needle v = Inl TypeError"

text \<open>\<^verbatim>\<open>v[key]\<close> for a string key: a lookup in a dict, a \<^verbatim>\<open>TypeError\<close> on anything else.\<close>

fun subscript :: "toml \<Rightarrow> string \<Rightarrow> exn + toml" where
  "subscript (TTable kvs) key =
     (case map_of kvs key of None \<Rightarrow> Inl (KeyError key) | Some v \<Rightarrow> Inr v)"
| "subscript v key = Inl TypeError"

text \<open>
  \<^verbatim>\<open>
  def cargo_name(path):
      data = tomllib.loads(path.read_text())
      lib = data.get("lib", {})
      if "cdylib" not in lib.get("crate-type", []):
          return None
      return lib.get("name") or data["package"]["name"]
  \<close>
  \<^verbatim>\<open>tomllib.loads\<close> is the standard library's parser and a parameter here: \<open>loads text\<close> is
  the top-level table, or \<open>None\<close> when the parser raises \<^verbatim>\<open>TOMLDecodeError\<close>. A value
  other than a table has no method \<^verbatim>\<open>get\<close>. The result is \<open>Inr None\<close> for Python's
  \<^verbatim>\<open>None\<close>. In the concrete trees further down the parser is given by what it returns on
  the manifests of the tree, as \<open>map_of\<close> of a list of texts with their tables or as a
  function of the text.
\<close>

definition package_name :: "table \<Rightarrow> exn + toml option" where
  "package_name data =
     (case map_of data ''package'' of
        None \<Rightarrow> Inl (KeyError ''package'')
      | Some package \<Rightarrow>
          (case subscript package ''name'' of Inl e \<Rightarrow> Inl e | Inr v \<Rightarrow> Inr (Some v)))"

definition cargo_name :: "(string \<Rightarrow> table option) \<Rightarrow> string \<Rightarrow> exn + toml option" where
  "cargo_name loads text =
     (case loads text of
        None \<Rightarrow> Inl TOMLDecodeError
      | Some data \<Rightarrow>
          (case (case map_of data ''lib'' of None \<Rightarrow> TTable [] | Some v \<Rightarrow> v) of
             TTable lib \<Rightarrow>
               (case py_in ''cdylib''
                       (case map_of lib ''crate-type'' of None \<Rightarrow> TArray [] | Some v \<Rightarrow> v) of
                  Inl e \<Rightarrow> Inl e
                | Inr False \<Rightarrow> Inr None
                | Inr True \<Rightarrow>
                    (case map_of lib ''name'' of
                       None \<Rightarrow> package_name data
                     | Some v \<Rightarrow> if truthy v then Inr (Some v) else package_name data))
           | _ \<Rightarrow> Inl AttributeError))"

section \<open>The driver\<close>

definition apostrophe :: char where
  "apostrophe = CHR 0x27"

definition newline :: char where
  "newline = CHR 0x0A"

text \<open>\<^verbatim>\<open>f"{cargo.parent}: Cargo '{name}' vs Earthly '{e_name}'"\<close>\<close>

definition mismatch_line :: "string \<Rightarrow> string \<Rightarrow> string \<Rightarrow> string" where
  "mismatch_line dir name e_name =
     dir @ '': Cargo '' @ [apostrophe] @ name @ [apostrophe]
         @ '' vs Earthly '' @ [apostrophe] @ e_name @ [apostrophe]"

text \<open>
  One turn of the loop, from the list \<^verbatim>\<open>errors\<close> before it to the list after it:
  \<^verbatim>\<open>
  for cargo in ROOT.rglob("Cargo.toml"):
      name = cargo_name(cargo)
      if not name:
          continue
      e_name = earthly_name(cargo.parent)
      if e_name and normalize(e_name) != normalize(name):
          errors.append(f"{cargo.parent}: Cargo '{name}' vs Earthly '{e_name}'")
  \<close>
  \<^verbatim>\<open>and\<close> does not evaluate \<^verbatim>\<open>normalize(name)\<close> when \<^verbatim>\<open>e_name\<close> is \<^verbatim>\<open>None\<close> or empty.
  When it is evaluated, \<^verbatim>\<open>name\<close> is a true value: a string is inside the annotation of
  \<^verbatim>\<open>normalize\<close>; a value of another type fails at \<^verbatim>\<open>name.replace("-", "_")\<close>, with
  \<^verbatim>\<open>TypeError\<close> for a date or time (which has a \<^verbatim>\<open>replace\<close> of its own, with other
  arguments) and \<^verbatim>\<open>AttributeError\<close> for the rest, so the line is only ever built from
  a string.
\<close>

definition loop_body :: "(string \<Rightarrow> table option) \<Rightarrow> module_dir \<Rightarrow> string list \<Rightarrow> exn + string list" where
  "loop_body loads dir errors =
     (case cargo_name loads (cargo_toml dir) of
        Inl e \<Rightarrow> Inl e
      | Inr name \<Rightarrow>
          if \<not> truthy_opt name then Inr errors
          else
            (case earthly_name dir of
               None \<Rightarrow> Inr errors
             | Some e_name \<Rightarrow>
                 if e_name = [] then Inr errors
                 else
                   (case name of
                      Some (TString s) \<Rightarrow>
                        if normalize_name (Some e_name) \<noteq> normalize_name (Some s)
                        then Inr (errors @ [mismatch_line (parent dir) s e_name])
                        else Inr errors
                    | Some TDatetime \<Rightarrow> Inl TypeError
                    | _ \<Rightarrow> Inl AttributeError)))"

primrec driver_loop :: "(string \<Rightarrow> table option) \<Rightarrow> module_dir list \<Rightarrow> string list \<Rightarrow> exn + string list" where
  "driver_loop loads [] errors = Inr errors"
| "driver_loop loads (dir # dirs) errors =
     (case loop_body loads dir errors of
        Inl e \<Rightarrow> Inl e
      | Inr errors' \<Rightarrow> driver_loop loads dirs errors')"

text \<open>\<^verbatim>\<open>"\n".join(errors)\<close>\<close>

fun join :: "string list \<Rightarrow> string" where
  "join [] = []"
| "join [e] = e"
| "join (e # es) = e @ newline # join es"

text \<open>
  What the process leaves behind: the text on standard output, the exit status, and the
  exception that ended it, if one did. \<^verbatim>\<open>print\<close> ends its text with a newline;
  \<^verbatim>\<open>sys.exit(1)\<close> gives status 1, the end of the script status 0, and an exception nobody
  catches makes the interpreter print a traceback on standard error and exit with
  status 1.
  \<^verbatim>\<open>
  errors = []
  for cargo in ROOT.rglob("Cargo.toml"): ...
  if errors:
      print("\n".join(errors))
      sys.exit(1)
  \<close>
\<close>

record outcome =
  stdout :: string
  status :: nat
  uncaught :: "exn option"

definition main :: "(string \<Rightarrow> table option) \<Rightarrow> module_dir list \<Rightarrow> outcome" where
  "main loads dirs =
     (case driver_loop loads dirs [] of
        Inl e \<Rightarrow> \<lparr>stdout = [], status = 1, uncaught = Some e\<rparr>
      | Inr errors \<Rightarrow>
          if errors \<noteq> []
          then \<lparr>stdout = join errors @ [newline], status = 1, uncaught = None\<rparr>
          else \<lparr>stdout = [], status = 0, uncaught = None\<rparr>)"


section \<open>Notions the properties are stated with\<close>






section \<open>The scanner finds the leftmost directive\<close>

lemma lit_Some_iff: "lit p s = Some r \<longleftrightarrow> s = p @ r"
  by (induction p arbitrary: s) (auto split: list.splits)

lemma lit_None_hd: "s \<noteq> [] \<Longrightarrow> p \<noteq> [] \<Longrightarrow> hd s \<noteq> hd p \<Longrightarrow> lit p s = None"
  by (cases p; cases s) auto

lemma dot_not_name_char: "\<not> name_char (CHR ''.'')"
  by (simp add: name_char_def)

lemma give_back_short:
  "k < length (takeWhile name_char r) \<Longrightarrow> give_back r k = None"
proof (induction k)
  case 0
  then show ?case by simp
next
  case (Suc k)
  let ?run = "takeWhile name_char r"
  have len: "Suc k < length r"
    using Suc.prems length_takeWhile_le [of name_char r] by simp
  have "r ! Suc k = ?run ! Suc k"
    using Suc.prems by (simp add: takeWhile_nth)
  moreover have "?run ! Suc k \<in> set ?run"
    using Suc.prems by simp
  ultimately have nc: "name_char (r ! Suc k)"
    using set_takeWhileD by metis
  have "drop (Suc k) r \<noteq> []" using len by simp
  moreover have "hd (drop (Suc k) r) = r ! Suc k"
    using len by (simp add: hd_drop_conv_nth)
  ultimately have "lit ''.wasm'' (drop (Suc k) r) = None"
    using nc dot_not_name_char by (intro lit_None_hd) auto
  then show ?case using Suc by simp
qed

lemma lit_None_iff: "lit p s = None \<longleftrightarrow> (\<forall>r. s \<noteq> p @ r)"
  using lit_Some_iff [of p s] by (cases "lit p s") auto

lemma give_back_full:
  "give_back r (length (takeWhile name_char r)) = Some n \<longleftrightarrow>
     n \<noteq> [] \<and> n = takeWhile name_char r \<and> (\<exists>rest. dropWhile name_char r = ''.wasm'' @ rest)"
proof (cases "length (takeWhile name_char r)")
  case 0
  then show ?thesis by auto
next
  case (Suc k)
  then have short: "give_back r k = None"
    by (simp add: give_back_short)
  have tk: "take (Suc k) r = takeWhile name_char r"
    using Suc takeWhile_eq_take [of name_char r] by simp
  have dr: "drop (Suc k) r = dropWhile name_char r"
    using Suc dropWhile_eq_drop [of name_char r] by simp
  have ne: "takeWhile name_char r \<noteq> []" using Suc by auto
  have gb: "give_back r (Suc k) =
      (case lit ''.wasm'' (dropWhile name_char r) of
         Some rest \<Rightarrow> Some (takeWhile name_char r) | None \<Rightarrow> None)"
    unfolding give_back.simps short tk dr ..
  show ?thesis
  proof (cases "lit ''.wasm'' (dropWhile name_char r)")
    case None
    then have no: "\<forall>rest. dropWhile name_char r \<noteq> ''.wasm'' @ rest"
      using lit_None_iff [of "''.wasm''" "dropWhile name_char r"] by blast
    have "give_back r (length (takeWhile name_char r)) = None"
      by (simp only: Suc gb None option.case)
    then show ?thesis using no by simp
  next
    case (Some rest)
    then have yes: "dropWhile name_char r = ''.wasm'' @ rest"
      using lit_Some_iff [of "''.wasm''" "dropWhile name_char r" rest] by blast
    have "give_back r (length (takeWhile name_char r)) = Some (takeWhile name_char r)"
      by (simp only: Suc gb Some option.case)
    then show ?thesis using yes ne by auto
  qed
qed

lemma name_then_wasm_iff:
  "name_then_wasm r = Some n \<longleftrightarrow>
     n \<noteq> [] \<and> (\<forall>c\<in>set n. name_char c) \<and> (\<exists>rest. r = n @ ''.wasm'' @ rest)"
proof
  assume "name_then_wasm r = Some n"
  then have "n \<noteq> [] \<and> n = takeWhile name_char r \<and>
      (\<exists>rest. dropWhile name_char r = ''.wasm'' @ rest)"
    unfolding name_then_wasm_def give_back_full .
  then have a: "n \<noteq> []" and b: "n = takeWhile name_char r"
    and c: "\<exists>rest. dropWhile name_char r = ''.wasm'' @ rest"
    by blast+
  from c obtain rest where "dropWhile name_char r = ''.wasm'' @ rest" ..
  then have "r = n @ ''.wasm'' @ rest"
    using b takeWhile_dropWhile_id [of name_char r] by simp
  moreover have "\<forall>c\<in>set n. name_char c"
    using b set_takeWhileD by metis
  ultimately show "n \<noteq> [] \<and> (\<forall>c\<in>set n. name_char c) \<and> (\<exists>rest. r = n @ ''.wasm'' @ rest)"
    using a by blast
next
  assume "n \<noteq> [] \<and> (\<forall>c\<in>set n. name_char c) \<and> (\<exists>rest. r = n @ ''.wasm'' @ rest)"
  then obtain rest where a: "n \<noteq> []" and b: "\<forall>c\<in>set n. name_char c"
    and c: "r = n @ ''.wasm'' @ rest" by blast
  have t: "n = takeWhile name_char r"
    using b c dot_not_name_char by (simp add: takeWhile_append2)
  have d: "\<exists>rest. dropWhile name_char r = ''.wasm'' @ rest"
    using b c dot_not_name_char by (simp add: dropWhile_append2)
  show "name_then_wasm r = Some n"
    unfolding name_then_wasm_def give_back_full using a t d by blast
qed

lemma alternative_iff:
  "alternative p s = Some n \<longleftrightarrow>
     n \<noteq> [] \<and> (\<forall>c\<in>set n. name_char c) \<and> (\<exists>rest. s = p @ n @ ''.wasm'' @ rest)"
proof (cases "lit p s")
  case None
  then show ?thesis
    using lit_None_iff [of p s] by (auto simp: alternative_def)
next
  case (Some r)
  then have s: "s = p @ r"
    using lit_Some_iff [of p s r] by blast
  have "alternative p s = name_then_wasm r"
    by (simp add: alternative_def Some)
  then show ?thesis
    using s by (simp add: name_then_wasm_iff)
qed

lemma match_here_iff:
  "match_here s = Some n \<longleftrightarrow>
     n \<noteq> [] \<and> (\<forall>c\<in>set n. name_char c) \<and>
     (\<exists>rest. s = ''--out='' @ n @ ''.wasm'' @ rest \<or> s = ''SAVE ARTIFACT '' @ n @ ''.wasm'' @ rest)"
proof (cases "alternative ''--out='' s")
  case None
  then have "\<not> (n \<noteq> [] \<and> (\<forall>c\<in>set n. name_char c) \<and> (\<exists>rest. s = ''--out='' @ n @ ''.wasm'' @ rest))"
    using alternative_iff [of "''--out=''" s n] by simp
  then show ?thesis
    unfolding match_here_def None using alternative_iff [of "''SAVE ARTIFACT ''" s n]
    by auto
next
  case (Some m)
  then obtain rest where m: "m \<noteq> []" "\<forall>c\<in>set m. name_char c" "s = ''--out='' @ m @ ''.wasm'' @ rest"
    using alternative_iff [of "''--out=''" s m] by blast
  have "alternative ''SAVE ARTIFACT '' s = None"
    using m(3) by (simp add: alternative_def)
  then have no: "\<forall>k. \<not> (k \<noteq> [] \<and> (\<forall>c\<in>set k. name_char c) \<and> (\<exists>rest. s = ''SAVE ARTIFACT '' @ k @ ''.wasm'' @ rest))"
    using alternative_iff [of "''SAVE ARTIFACT ''" s] by auto
  have "match_here s = Some n \<longleftrightarrow> alternative ''--out='' s = Some n"
    unfolding match_here_def Some by simp
  then show ?thesis
    unfolding alternative_iff using no by blast
qed

lemma search_iff:
  "EARTHLY_RE_search t = Some n \<longleftrightarrow>
     (\<exists>i\<le>length t. match_here (drop i t) = Some n \<and> (\<forall>j<i. match_here (drop j t) = None))"
proof (induction t)
  case Nil
  then show ?case by simp
next
  case (Cons c cs)
  show ?case
  proof (cases "match_here (c # cs)")
    case (Some m)
    have "(\<exists>i\<le>length (c # cs). match_here (drop i (c # cs)) = Some n \<and>
             (\<forall>j<i. match_here (drop j (c # cs)) = None)) \<longleftrightarrow> m = n"
    proof
      assume "\<exists>i\<le>length (c # cs). match_here (drop i (c # cs)) = Some n \<and>
             (\<forall>j<i. match_here (drop j (c # cs)) = None)"
      then obtain i where i: "match_here (drop i (c # cs)) = Some n"
        "\<forall>j<i. match_here (drop j (c # cs)) = None" by blast
      have "i = 0"
      proof (rule ccontr)
        assume "i \<noteq> 0"
        then have "match_here (drop 0 (c # cs)) = None" using i(2) by blast
        then show False using Some by simp
      qed
      then show "m = n" using i(1) Some by simp
    next
      assume "m = n"
      then have "match_here (drop 0 (c # cs)) = Some n" using Some by simp
      then show "\<exists>i\<le>length (c # cs). match_here (drop i (c # cs)) = Some n \<and>
             (\<forall>j<i. match_here (drop j (c # cs)) = None)" by blast
    qed
    then show ?thesis using Some by simp
  next
    case None
    have "(\<exists>i\<le>length (c # cs). match_here (drop i (c # cs)) = Some n \<and>
             (\<forall>j<i. match_here (drop j (c # cs)) = None)) \<longleftrightarrow>
          (\<exists>i\<le>length cs. match_here (drop i cs) = Some n \<and>
             (\<forall>j<i. match_here (drop j cs) = None))"
    proof
      assume "\<exists>i\<le>length (c # cs). match_here (drop i (c # cs)) = Some n \<and>
             (\<forall>j<i. match_here (drop j (c # cs)) = None)"
      then obtain i where i: "i \<le> length (c # cs)" "match_here (drop i (c # cs)) = Some n"
        "\<forall>j<i. match_here (drop j (c # cs)) = None" by blast
      from i(2) None obtain k where k: "i = Suc k" by (cases i) auto
      have "\<forall>j<k. match_here (drop j cs) = None"
      proof (intro allI impI)
        fix j assume "j < k"
        then have "match_here (drop (Suc j) (c # cs)) = None" using i(3) k by blast
        then show "match_here (drop j cs) = None" by simp
      qed
      then show "\<exists>i\<le>length cs. match_here (drop i cs) = Some n \<and>
             (\<forall>j<i. match_here (drop j cs) = None)"
        using i(1,2) k by auto
    next
      assume "\<exists>i\<le>length cs. match_here (drop i cs) = Some n \<and>
             (\<forall>j<i. match_here (drop j cs) = None)"
      then obtain i where i: "i \<le> length cs" "match_here (drop i cs) = Some n"
        "\<forall>j<i. match_here (drop j cs) = None" by blast
      have "\<forall>j<Suc i. match_here (drop j (c # cs)) = None"
      proof (intro allI impI)
        fix j assume j: "j < Suc i"
        show "match_here (drop j (c # cs)) = None"
        proof (cases j)
          case 0
          then show ?thesis using None by simp
        next
          case (Suc j')
          then show ?thesis using i(3) j by simp
        qed
      qed
      moreover have "match_here (drop (Suc i) (c # cs)) = Some n" using i(2) by simp
      moreover have "Suc i \<le> length (c # cs)" using i(1) by simp
      ultimately show "\<exists>i\<le>length (c # cs). match_here (drop i (c # cs)) = Some n \<and>
             (\<forall>j<i. match_here (drop j (c # cs)) = None)" by blast
    qed
    then show ?thesis using None Cons.IH by simp
  qed
qed


lemma search_leftmost:
  assumes "match_here (drop i t) = Some n" and "i \<le> length t"
    and "\<forall>j<i. match_here (drop j t) = None"
  shows "EARTHLY_RE_search t = Some n"
  using assms search_iff [of t n] by blast

lemma earthly_name_nonempty: "earthly_name dir = Some e \<Longrightarrow> e \<noteq> []"
proof -
  assume a: "earthly_name dir = Some e"
  then obtain t where "EARTHLY_RE_search t = Some e"
    by (auto simp: earthly_name_def split: option.splits)
  then obtain i where "match_here (drop i t) = Some e"
    using search_iff [of t e] by blast
  then show "e \<noteq> []" using match_here_iff by blast
qed

lemma loop_body_string:
  assumes "cargo_name loads (cargo_toml dir) = Inr (Some (TString s))" and "s \<noteq> []"
    and "earthly_name dir = Some e"
  shows "loop_body loads dir errors =
           (if normalize_name (Some e) \<noteq> normalize_name (Some s)
            then Inr (errors @ [mismatch_line (parent dir) s e]) else Inr errors)"
  using assms earthly_name_nonempty [OF assms(3)] by (simp add: loop_body_def)

text \<open>
  Claim C5. The scanner returns the name captured by the leftmost match of the pattern and
  nothing after that match matters: when the text is \<open>pre @ d @ n @ ''.wasm'' @ rest\<close>,
  with \<open>d\<close> one of the two directive prefixes, \<open>n\<close> a non-empty run of name
  characters and no match starting at any position inside \<open>pre\<close>, the result is \<open>n\<close>
  for every \<open>rest\<close>; and a manifest whose name is a string with another normal form
  gets the mismatch line of its name against \<open>n\<close>. The instance proved next is the file
  \<^verbatim>\<open>--out=a.wasm\<close>, a newline, \<^verbatim>\<open>SAVE ARTIFACT x b.wasm\<close> beside a manifest named
  \<^verbatim>\<open>b\<close>: the name found is \<^verbatim>\<open>a\<close> and the line reports \<^verbatim>\<open>b\<close> against \<^verbatim>\<open>a\<close>.
\<close>

theorem earthly_name_first_match:
  assumes "earthfile dir = Some (pre @ d @ n @ ''.wasm'' @ rest)"
    and "d = ''--out='' \<or> d = ''SAVE ARTIFACT ''"
    and "n \<noteq> []" and "\<forall>c\<in>set n. name_char c"
    and "\<forall>j<length pre. match_here (drop j (pre @ d @ n @ ''.wasm'' @ rest)) = None"
  shows "earthly_name dir = Some n \<and>
         (\<forall>loads s errors.
            cargo_name loads (cargo_toml dir) = Inr (Some (TString s)) \<and> s \<noteq> [] \<and>
            normalize_name (Some s) \<noteq> normalize_name (Some n) \<longrightarrow>
            loop_body loads dir errors = Inr (errors @ [mismatch_line (parent dir) s n]))"
proof -
  let ?t = "pre @ d @ n @ ''.wasm'' @ rest"
  have "match_here (drop (length pre) ?t) = Some n"
    using assms(2,3,4) match_here_iff [of "d @ n @ ''.wasm'' @ rest" n] by auto
  moreover have "length pre \<le> length ?t" by simp
  ultimately have "EARTHLY_RE_search ?t = Some n"
    using assms(5) by (rule search_leftmost)
  then have e: "earthly_name dir = Some n"
    using assms(1) by (simp add: earthly_name_def)
  show ?thesis
  proof (intro conjI allI impI)
    show "earthly_name dir = Some n" by (rule e)
  next
    fix loads s errors
    assume "cargo_name loads (cargo_toml dir) = Inr (Some (TString s)) \<and> s \<noteq> [] \<and>
            normalize_name (Some s) \<noteq> normalize_name (Some n)"
    then show "loop_body loads dir errors = Inr (errors @ [mismatch_line (parent dir) s n])"
      using loop_body_string [of loads dir s n errors] e by auto
  qed
qed

theorem earthly_name_first_match_witness:
  "earthly_name \<lparr>parent = ''modules/b'', cargo_toml = ''b'',
       earthfile = Some (''--out=a.wasm'' @ newline # ''SAVE ARTIFACT x b.wasm'')\<rparr> = Some ''a'' \<and>
   loop_body
     (\<lambda>text. Some [(''package'', TTable [(''name'', TString ''b'')]),
                   (''lib'', TTable [(''crate-type'', TArray [TString ''cdylib''])])])
     \<lparr>parent = ''modules/b'', cargo_toml = ''b'',
       earthfile = Some (''--out=a.wasm'' @ newline # ''SAVE ARTIFACT x b.wasm'')\<rparr> []
   = Inr [mismatch_line ''modules/b'' ''b'' ''a'']"
proof -
  let ?dir = "\<lparr>parent = ''modules/b'', cargo_toml = ''b'',
       earthfile = Some (''--out=a.wasm'' @ newline # ''SAVE ARTIFACT x b.wasm'')\<rparr>"
  let ?loads = "\<lambda>text::string. Some [(''package'', TTable [(''name'', TString ''b'')]),
                   (''lib'', TTable [(''crate-type'', TArray [TString ''cdylib''])])]"
  have h1: "earthfile ?dir = Some ([] @ ''--out='' @ ''a'' @ ''.wasm'' @ (newline # ''SAVE ARTIFACT x b.wasm''))"
    by simp
  have h2: "''--out='' = ''--out='' \<or> ''--out='' = ''SAVE ARTIFACT ''" by simp
  have h3: "''a'' \<noteq> []" by simp
  have h4: "\<forall>c\<in>set ''a''. name_char c" by (simp add: name_char_def)
  have h5: "\<forall>j<length ([]::string). match_here (drop j ([] @ ''--out='' @ ''a'' @ ''.wasm'' @ (newline # ''SAVE ARTIFACT x b.wasm''))) = None"
    by simp
  note main = earthly_name_first_match [OF h1 h2 h3 h4 h5]
  have c1: "cargo_name ?loads (cargo_toml ?dir) = Inr (Some (TString ''b''))"
    by code_simp
  have c2: "normalize_name (Some ''b'') \<noteq> normalize_name (Some ''a'')"
    by (simp add: normalize_name_def lower_def lower_char_def is_upper_def)
  from main have "loop_body ?loads ?dir [] = Inr ([] @ [mismatch_line (parent ?dir) ''b'' ''a''])"
    using c1 c2 by blast
  then show ?thesis using main by simp
qed

section \<open>A save directive with a source path\<close>

text \<open>
  Claim C2. The comment above \<^verbatim>\<open>EARTHLY_RE\<close> speaks of statements like
  \<^verbatim>\<open>SAVE ARTIFACT ... foo.wasm\<close>, but the pattern wants the name right after
  \<^verbatim>\<open>SAVE ARTIFACT \<close> and a single space. On the recipe text
  \<^verbatim>\<open>SAVE ARTIFACT ./target foo-mod.wasm\<close> the character after the prefix is a dot, no
  position matches, the scanner returns \<^verbatim>\<open>None\<close>, and the run over a tree with that one
  directory, whose manifest declares the cdylib \<^verbatim>\<open>foo\<close>, prints nothing and exits with
  status 0. The name is found only when it follows the prefix at once, as in
  \<^verbatim>\<open>SAVE ARTIFACT foo-mod.wasm\<close>.
\<close>

theorem save_artifact_with_source_path_not_matched:
  "earthly_name \<lparr>parent = ''modules/foo'', cargo_toml = ''foo'',
       earthfile = Some ''SAVE ARTIFACT ./target foo-mod.wasm''\<rparr> = None \<and>
   main (map_of [(''foo'', [(''package'', TTable [(''name'', TString ''foo'')]),
                           (''lib'', TTable [(''crate-type'', TArray [TString ''cdylib''])])])])
     [\<lparr>parent = ''modules/foo'', cargo_toml = ''foo'',
       earthfile = Some ''SAVE ARTIFACT ./target foo-mod.wasm''\<rparr>]
   = \<lparr>stdout = [], status = 0, uncaught = None\<rparr> \<and>
   earthly_name \<lparr>parent = ''modules/foo'', cargo_toml = ''foo'',
       earthfile = Some ''SAVE ARTIFACT foo-mod.wasm''\<rparr> = Some ''foo-mod''"
  by code_simp

section \<open>When a turn of the loop reports a mismatch\<close>

lemma loop_body_appends:
  "loop_body loads dir errors =
     (case loop_body loads dir [] of Inl e \<Rightarrow> Inl e | Inr new \<Rightarrow> Inr (errors @ new))"
  by (simp add: loop_body_def split: sum.splits option.splits toml.splits)

lemma loop_body_new:
  assumes "loop_body loads dir [] = Inr new"
  shows "new = [] \<or> (\<exists>s e. cargo_name loads (cargo_toml dir) = Inr (Some (TString s)) \<and> s \<noteq> [] \<and>
            earthly_name dir = Some e \<and> normalize_name (Some s) \<noteq> normalize_name (Some e) \<and>
            new = [mismatch_line (parent dir) s e])"
  using assms
  by (auto simp: loop_body_def split: sum.splits option.splits toml.splits if_splits)

lemma loop_body_absent_manifest_name:
  "cargo_name loads (cargo_toml dir) = Inr name \<Longrightarrow> \<not> truthy_opt name \<Longrightarrow>
   loop_body loads dir errors = Inr errors"
  by (simp add: loop_body_def)

lemma loop_body_absent_recipe_name:
  "cargo_name loads (cargo_toml dir) = Inr name \<Longrightarrow> earthly_name dir = None \<Longrightarrow>
   loop_body loads dir errors = Inr errors"
  by (simp add: loop_body_def)

lemma driver_loop_lines:
  "driver_loop loads dirs errors = Inr result \<Longrightarrow>
   set result = set errors \<union> {l. \<exists>dir\<in>set dirs. loop_body loads dir [] = Inr [l]}"
proof (induction dirs arbitrary: errors)
  case Nil
  then show ?case by simp
next
  case (Cons d ds)
  from Cons.prems obtain new where new: "loop_body loads d [] = Inr new"
    and rest: "driver_loop loads ds (errors @ new) = Inr result"
    using loop_body_appends [of loads d errors]
    by (auto split: sum.splits)
  have "set result = set (errors @ new) \<union> {l. \<exists>dir\<in>set ds. loop_body loads dir [] = Inr [l]}"
    using Cons.IH [OF rest] .
  moreover have "set new = {l. loop_body loads d [] = Inr [l]}"
    using new loop_body_new [OF new] by auto
  ultimately show ?case by auto
qed

text \<open>
  Claim C1. One turn of the loop appends the line \<open>l\<close> exactly when the manifest parser
  returned a non-empty string \<open>s\<close>, the scanner returned a name \<open>e\<close>, the normal forms
  of the two differ, and \<open>l\<close> is the line for \<open>s\<close> and \<open>e\<close>. An absent name is a value
  the truth test of the driver rejects: \<^verbatim>\<open>None\<close> or the empty string (the scanner never
  returns an empty name). When the manifest name is absent, or the parser returned and
  the scanner found nothing, the turn leaves the list as it was. For a run whose loop
  completes, the lines collected are exactly the lines of the directories that meet the
  condition.
\<close>

theorem mismatch_iff:
  "(loop_body loads dir errors = Inr (errors @ [l]) \<longleftrightarrow>
      (\<exists>s e. cargo_name loads (cargo_toml dir) = Inr (Some (TString s)) \<and> s \<noteq> [] \<and>
             earthly_name dir = Some e \<and> normalize_name (Some s) \<noteq> normalize_name (Some e) \<and>
             l = mismatch_line (parent dir) s e)) \<and>
   (cargo_name loads (cargo_toml dir) = Inr name \<and> (\<not> truthy_opt name \<or> earthly_name dir = None) \<longrightarrow>
      loop_body loads dir errors = Inr errors) \<and>
   (driver_loop loads dirs [] = Inr result \<longrightarrow>
      (l \<in> set result \<longleftrightarrow>
         (\<exists>d\<in>set dirs. \<exists>s e. cargo_name loads (cargo_toml d) = Inr (Some (TString s)) \<and> s \<noteq> [] \<and>
             earthly_name d = Some e \<and> normalize_name (Some s) \<noteq> normalize_name (Some e) \<and>
             l = mismatch_line (parent d) s e)))"
proof -
  have body: "loop_body loads d [] = Inr [l] \<longleftrightarrow>
      (\<exists>s e. cargo_name loads (cargo_toml d) = Inr (Some (TString s)) \<and> s \<noteq> [] \<and>
             earthly_name d = Some e \<and> normalize_name (Some s) \<noteq> normalize_name (Some e) \<and>
             l = mismatch_line (parent d) s e)" for d
  proof
    assume "loop_body loads d [] = Inr [l]"
    then show "\<exists>s e. cargo_name loads (cargo_toml d) = Inr (Some (TString s)) \<and> s \<noteq> [] \<and>
             earthly_name d = Some e \<and> normalize_name (Some s) \<noteq> normalize_name (Some e) \<and>
             l = mismatch_line (parent d) s e"
      using loop_body_new [of loads d "[l]"] by auto
  next
    assume "\<exists>s e. cargo_name loads (cargo_toml d) = Inr (Some (TString s)) \<and> s \<noteq> [] \<and>
             earthly_name d = Some e \<and> normalize_name (Some s) \<noteq> normalize_name (Some e) \<and>
             l = mismatch_line (parent d) s e"
    then obtain s e where "cargo_name loads (cargo_toml d) = Inr (Some (TString s))" "s \<noteq> []"
      "earthly_name d = Some e" "normalize_name (Some s) \<noteq> normalize_name (Some e)"
      "l = mismatch_line (parent d) s e" by blast
    then show "loop_body loads d [] = Inr [l]"
      using loop_body_string [of loads d s e "[]"] by auto
  qed
  have "loop_body loads dir errors = Inr (errors @ [l]) \<longleftrightarrow> loop_body loads dir [] = Inr [l]"
    using loop_body_appends [of loads dir errors] by (auto split: sum.splits)
  then have first: "loop_body loads dir errors = Inr (errors @ [l]) \<longleftrightarrow>
      (\<exists>s e. cargo_name loads (cargo_toml dir) = Inr (Some (TString s)) \<and> s \<noteq> [] \<and>
             earthly_name dir = Some e \<and> normalize_name (Some s) \<noteq> normalize_name (Some e) \<and>
             l = mismatch_line (parent dir) s e)"
    using body [of dir] by simp
  have second: "driver_loop loads dirs [] = Inr result \<longrightarrow>
      (l \<in> set result \<longleftrightarrow>
         (\<exists>d\<in>set dirs. \<exists>s e. cargo_name loads (cargo_toml d) = Inr (Some (TString s)) \<and> s \<noteq> [] \<and>
             earthly_name d = Some e \<and> normalize_name (Some s) \<noteq> normalize_name (Some e) \<and>
             l = mismatch_line (parent d) s e))"
  proof
    assume "driver_loop loads dirs [] = Inr result"
    then have "set result = {l. \<exists>d\<in>set dirs. loop_body loads d [] = Inr [l]}"
      using driver_loop_lines [of loads dirs "[]" result] by simp
    then show "l \<in> set result \<longleftrightarrow>
         (\<exists>d\<in>set dirs. \<exists>s e. cargo_name loads (cargo_toml d) = Inr (Some (TString s)) \<and> s \<noteq> [] \<and>
             earthly_name d = Some e \<and> normalize_name (Some s) \<noteq> normalize_name (Some e) \<and>
             l = mismatch_line (parent d) s e)"
      using body by simp
  qed
  have absent: "cargo_name loads (cargo_toml dir) = Inr name \<and>
      (\<not> truthy_opt name \<or> earthly_name dir = None) \<longrightarrow>
      loop_body loads dir errors = Inr errors"
    using loop_body_absent_manifest_name loop_body_absent_recipe_name by blast
  show ?thesis using first absent second by blast
qed

theorem mismatch_iff_witness:
  "loop_body
     (\<lambda>t. Some [(''package'', TTable [(''name'', TString ''foo'')]),
                (''lib'', TTable [(''crate-type'', TArray [TString ''cdylib''])])])
     \<lparr>parent = ''modules/foo'', cargo_toml = ''foo'', earthfile = Some ''--out=bar.wasm''\<rparr> []
   = Inr [mismatch_line ''modules/foo'' ''foo'' ''bar''] \<and>
   loop_body
     (\<lambda>t. Some [(''package'', TTable [(''name'', TString ''foo'')]),
                (''lib'', TTable [(''crate-type'', TArray [TString ''cdylib''])])])
     \<lparr>parent = ''modules/foo'', cargo_toml = ''foo'', earthfile = None\<rparr> [''earlier'']
   = Inr [''earlier'']"
proof -
  let ?loads = "\<lambda>t::string. Some [(''package'', TTable [(''name'', TString ''foo'')]),
                (''lib'', TTable [(''crate-type'', TArray [TString ''cdylib''])])]"
  let ?d = "\<lparr>parent = ''modules/foo'', cargo_toml = ''foo'', earthfile = Some ''--out=bar.wasm''\<rparr>"
  let ?d' = "\<lparr>parent = ''modules/foo'', cargo_toml = ''foo'', earthfile = None\<rparr>"
  have c: "cargo_name ?loads (cargo_toml ?d) = Inr (Some (TString ''foo''))" by code_simp
  have c': "cargo_name ?loads (cargo_toml ?d') = Inr (Some (TString ''foo''))" by code_simp
  have e: "earthly_name ?d = Some ''bar''" by code_simp
  have e': "earthly_name ?d' = None" by code_simp
  have n: "normalize_name (Some ''foo'') \<noteq> normalize_name (Some ''bar'')" by code_simp
  have "\<exists>s e. cargo_name ?loads (cargo_toml ?d) = Inr (Some (TString s)) \<and> s \<noteq> [] \<and>
             earthly_name ?d = Some e \<and> normalize_name (Some s) \<noteq> normalize_name (Some e) \<and>
             mismatch_line ''modules/foo'' ''foo'' ''bar'' = mismatch_line (parent ?d) s e"
    using c e n by auto
  then have "loop_body ?loads ?d [] = Inr ([] @ [mismatch_line ''modules/foo'' ''foo'' ''bar''])"
    using mismatch_iff [of ?loads ?d "[]" "mismatch_line ''modules/foo'' ''foo'' ''bar''"]
    by blast
  moreover have "loop_body ?loads ?d' [''earlier''] = Inr [''earlier'']"
    using mismatch_iff [of ?loads ?d' "[''earlier'']" _ "Some (TString ''foo'')"] c' e'
    by blast
  ultimately show ?thesis by simp
qed

section \<open>Runs over a tree\<close>

lemma driver_loop_append:
  "driver_loop loads (pre @ post) errors =
     (case driver_loop loads pre errors of
        Inl e \<Rightarrow> Inl e
      | Inr errors' \<Rightarrow> driver_loop loads post errors')"
  by (induction pre arbitrary: errors) (auto split: sum.splits)

lemma driver_loop_quiet:
  "\<forall>d\<in>set dirs. loop_body loads d [] = Inr [] \<Longrightarrow> driver_loop loads dirs errors = Inr errors"
proof (induction dirs)
  case Nil
  then show ?case by simp
next
  case (Cons d ds)
  then have "loop_body loads d errors = Inr errors"
    using loop_body_appends [of loads d errors] by simp
  then show ?case using Cons by simp
qed

lemma driver_loop_completes:
  "\<forall>d\<in>set dirs. \<exists>new. loop_body loads d [] = Inr new \<Longrightarrow>
   \<exists>result. driver_loop loads dirs errors = Inr result"
proof (induction dirs arbitrary: errors)
  case Nil
  then show ?case by simp
next
  case (Cons d ds)
  then obtain new where "loop_body loads d [] = Inr new" by auto
  then have "loop_body loads d errors = Inr (errors @ new)"
    using loop_body_appends [of loads d errors] by simp
  then show ?case using Cons by simp
qed

lemma driver_loop_raises:
  assumes "loop_body loads d [] = Inl e"
  shows "\<exists>e'. driver_loop loads (pre @ d # post) errors = Inl e'"
proof (cases "driver_loop loads pre errors")
  case (Inl e')
  then show ?thesis by (simp add: driver_loop_append)
next
  case (Inr errors')
  have "loop_body loads d errors' = Inl e"
    using assms loop_body_appends [of loads d errors'] by simp
  then show ?thesis by (simp add: driver_loop_append Inr)
qed

lemma driver_loop_first_raise:
  assumes "loop_body loads d [] = Inl e"
    and "\<forall>p\<in>set pre. \<exists>new. loop_body loads p [] = Inr new"
  shows "driver_loop loads (pre @ d # post) errors = Inl e"
proof -
  obtain errors' where "driver_loop loads pre errors = Inr errors'"
    using driver_loop_completes [OF assms(2)] by blast
  moreover have "loop_body loads d errors' = Inl e"
    using assms(1) loop_body_appends [of loads d errors'] by simp
  ultimately show ?thesis by (simp add: driver_loop_append)
qed

lemma main_uncaught:
  "driver_loop loads dirs [] = Inl e \<Longrightarrow>
   main loads dirs = \<lparr>stdout = [], status = 1, uncaught = Some e\<rparr>"
  by (simp add: main_def)

text \<open>
  Claim C7. When the manifest parses and has no \<^verbatim>\<open>lib\<close> table, or its \<^verbatim>\<open>lib\<close> table
  has no \<^verbatim>\<open>crate-type\<close>, or \<^verbatim>\<open>crate-type\<close> is a list without the string \<^verbatim>\<open>cdylib\<close>,
  \<^verbatim>\<open>cargo_name\<close> returns \<^verbatim>\<open>None\<close> and the turn of the loop for that directory leaves the
  list of mismatches as it was, whatever recipe file the directory holds or lacks.
\<close>

theorem no_cdylib_no_mismatch:
  assumes "loads (cargo_toml dir) = Some data"
    and "map_of data ''lib'' = None \<or>
         (\<exists>lib. map_of data ''lib'' = Some (TTable lib) \<and>
            (map_of lib ''crate-type'' = None \<or>
             (\<exists>xs. map_of lib ''crate-type'' = Some (TArray xs) \<and> TString ''cdylib'' \<notin> set xs)))"
  shows "cargo_name loads (cargo_toml dir) = Inr None \<and>
         (\<forall>recipe. loop_body loads (dir\<lparr>earthfile := recipe\<rparr>) errors = Inr errors)"
proof -
  have c: "cargo_name loads (cargo_toml dir) = Inr None"
    using assms by (auto simp: cargo_name_def)
  have "loop_body loads (dir\<lparr>earthfile := recipe\<rparr>) errors = Inr errors" for recipe
    using c by (simp add: loop_body_def)
  then show ?thesis using c by blast
qed

theorem no_cdylib_no_mismatch_witness:
  "cargo_name
     (\<lambda>t. Some [(''package'', TTable [(''name'', TString ''tool'')]),
                (''lib'', TTable [(''crate-type'', TArray [TString ''rlib''])])])
     (cargo_toml \<lparr>parent = ''tools/tool'', cargo_toml = ''tool'', earthfile = None\<rparr>) = Inr None \<and>
   loop_body
     (\<lambda>t. Some [(''package'', TTable [(''name'', TString ''tool'')]),
                (''lib'', TTable [(''crate-type'', TArray [TString ''rlib''])])])
     (\<lparr>parent = ''tools/tool'', cargo_toml = ''tool'', earthfile = None\<rparr>
        \<lparr>earthfile := Some ''--out=other.wasm''\<rparr>) [] = Inr []"
proof -
  let ?data = "[(''package'', TTable [(''name'', TString ''tool'')]),
                (''lib'', TTable [(''crate-type'', TArray [TString ''rlib''])])]"
  let ?d = "\<lparr>parent = ''tools/tool'', cargo_toml = ''tool'', earthfile = None\<rparr>"
  have h1: "(\<lambda>t::string. Some ?data) (cargo_toml ?d) = Some ?data" by simp
  have h2: "map_of ?data ''lib'' = None \<or>
         (\<exists>lib. map_of ?data ''lib'' = Some (TTable lib) \<and>
            (map_of lib ''crate-type'' = None \<or>
             (\<exists>xs. map_of lib ''crate-type'' = Some (TArray xs) \<and> TString ''cdylib'' \<notin> set xs)))"
    by simp
  show ?thesis
    using no_cdylib_no_mismatch [of "\<lambda>t. Some ?data" ?d ?data "[]", OF h1 h2] by blast
qed

lemma search_None_iff:
  "EARTHLY_RE_search t = None \<longleftrightarrow> (\<forall>i\<le>length t. match_here (drop i t) = None)"
proof (induction t)
  case Nil
  then show ?case by simp
next
  case (Cons c cs)
  have "(\<forall>i\<le>length (c # cs). match_here (drop i (c # cs)) = None) \<longleftrightarrow>
        match_here (c # cs) = None \<and> (\<forall>i\<le>length cs. match_here (drop i cs) = None)"
  proof
    assume a: "\<forall>i\<le>length (c # cs). match_here (drop i (c # cs)) = None"
    then have "match_here (drop 0 (c # cs)) = None" by blast
    moreover have "match_here (drop i cs) = None" if "i \<le> length cs" for i
      using a that by (metis Suc_le_mono drop_Suc_Cons length_Cons)
    ultimately show "match_here (c # cs) = None \<and> (\<forall>i\<le>length cs. match_here (drop i cs) = None)"
      by simp
  next
    assume a: "match_here (c # cs) = None \<and> (\<forall>i\<le>length cs. match_here (drop i cs) = None)"
    show "\<forall>i\<le>length (c # cs). match_here (drop i (c # cs)) = None"
    proof (intro allI impI)
      fix i assume "i \<le> length (c # cs)"
      then show "match_here (drop i (c # cs)) = None"
        using a by (cases i) auto
    qed
  qed
  then show ?case using Cons.IH by (simp split: option.splits)
qed

lemma no_directive_search:
  assumes "\<forall>pre d n rest.
             t = pre @ d @ n @ ''.wasm'' @ rest \<and> (d = ''--out='' \<or> d = ''SAVE ARTIFACT '') \<and> n \<noteq> []
             \<longrightarrow> (\<exists>c\<in>set n. \<not> name_char c)"
  shows "EARTHLY_RE_search t = None"
proof -
  have "match_here (drop i t) = None" for i
  proof (cases "match_here (drop i t)")
    case None
    then show ?thesis .
  next
    case (Some n)
    then obtain rest d where n: "n \<noteq> []" "\<forall>c\<in>set n. name_char c"
      and d: "d = ''--out='' \<or> d = ''SAVE ARTIFACT ''"
      and t: "drop i t = d @ n @ ''.wasm'' @ rest"
      using match_here_iff [of "drop i t" n] by blast
    have "t = take i t @ d @ n @ ''.wasm'' @ rest"
      using t append_take_drop_id [of i t] by simp
    then have "\<exists>c\<in>set n. \<not> name_char c"
      using assms d n(1) by blast
    then show ?thesis using n(2) by blast
  qed
  then show ?thesis by (simp add: search_None_iff)
qed

text \<open>
  Claim C8. A directory whose manifest parser returned a name and which has no
  \<^verbatim>\<open>Earthfile\<close>, or an \<^verbatim>\<open>Earthfile\<close> in which no directive prefix is followed by a
  non-empty run of name characters and \<^verbatim>\<open>.wasm\<close>, gets \<^verbatim>\<open>None\<close> from the scanner and
  adds no mismatch; when the turns for all other directories of the tree complete
  without adding one either, the run prints nothing and exits with status 0.
\<close>

theorem missing_recipe_no_mismatch:
  assumes "cargo_name loads (cargo_toml dir) = Inr (Some v)"
    and "earthfile dir = None \<or>
         (\<exists>t. earthfile dir = Some t \<and>
            (\<forall>pre d n rest.
               t = pre @ d @ n @ ''.wasm'' @ rest \<and> (d = ''--out='' \<or> d = ''SAVE ARTIFACT '') \<and> n \<noteq> []
               \<longrightarrow> (\<exists>c\<in>set n. \<not> name_char c)))"
  shows "earthly_name dir = None \<and>
         loop_body loads dir errors = Inr errors \<and>
         ((\<forall>d\<in>set before \<union> set after. loop_body loads d [] = Inr []) \<longrightarrow>
            main loads (before @ dir # after) = \<lparr>stdout = [], status = 0, uncaught = None\<rparr>)"
proof -
  have e: "earthly_name dir = None"
    using assms(2) no_directive_search by (auto simp: earthly_name_def)
  have b: "loop_body loads dir errors = Inr errors" for errors
    using assms(1) e by (rule loop_body_absent_recipe_name)
  have "main loads (before @ dir # after) = \<lparr>stdout = [], status = 0, uncaught = None\<rparr>"
    if "\<forall>d\<in>set before \<union> set after. loop_body loads d [] = Inr []"
  proof -
    have "\<forall>d\<in>set (before @ dir # after). loop_body loads d [] = Inr []"
      using that b [of "[]"] by auto
    then have "driver_loop loads (before @ dir # after) [] = Inr []"
      by (rule driver_loop_quiet)
    then show ?thesis by (simp add: main_def)
  qed
  then show ?thesis using e b by blast
qed

theorem missing_recipe_no_mismatch_witness:
  "earthly_name \<lparr>parent = ''modules/foo'', cargo_toml = ''foo'', earthfile = None\<rparr> = None \<and>
   main
     (\<lambda>t. Some [(''package'', TTable [(''name'', TString t)]),
                (''lib'', TTable [(''crate-type'', TArray [TString ''cdylib''])])])
     [\<lparr>parent = ''modules/bar'', cargo_toml = ''bar'', earthfile = Some ''--out=bar.wasm''\<rparr>,
      \<lparr>parent = ''modules/foo'', cargo_toml = ''foo'', earthfile = None\<rparr>,
      \<lparr>parent = ''modules/baz-q'', cargo_toml = ''baz-q'', earthfile = Some ''SAVE ARTIFACT Baz_Q.wasm''\<rparr>]
   = \<lparr>stdout = [], status = 0, uncaught = None\<rparr>"
proof -
  let ?loads = "\<lambda>t. Some [(''package'', TTable [(''name'', TString t)]),
                (''lib'', TTable [(''crate-type'', TArray [TString ''cdylib''])])]"
  let ?bar = "\<lparr>parent = ''modules/bar'', cargo_toml = ''bar'', earthfile = Some ''--out=bar.wasm''\<rparr>"
  let ?foo = "\<lparr>parent = ''modules/foo'', cargo_toml = ''foo'', earthfile = None\<rparr>"
  let ?baz = "\<lparr>parent = ''modules/baz-q'', cargo_toml = ''baz-q'', earthfile = Some ''SAVE ARTIFACT Baz_Q.wasm''\<rparr>"
  have h1: "cargo_name ?loads (cargo_toml ?foo) = Inr (Some (TString ''foo''))" by code_simp
  have h2: "earthfile ?foo = None \<or>
         (\<exists>t. earthfile ?foo = Some t \<and>
            (\<forall>pre d n rest.
               t = pre @ d @ n @ ''.wasm'' @ rest \<and> (d = ''--out='' \<or> d = ''SAVE ARTIFACT '') \<and> n \<noteq> []
               \<longrightarrow> (\<exists>c\<in>set n. \<not> name_char c)))"
    by simp
  have q1: "loop_body ?loads ?bar [] = Inr []" by code_simp
  have q3: "loop_body ?loads ?baz [] = Inr []" by code_simp
  have others: "\<forall>d\<in>set [?bar] \<union> set [?baz]. loop_body ?loads d [] = Inr []"
    using q1 q3 by simp
  show ?thesis
    using missing_recipe_no_mismatch [of ?loads ?foo "TString ''foo''" "[]" "[?bar]" "[?baz]", OF h1 h2] others
    by simp
qed

section \<open>Report and exit status\<close>





section \<open>Exceptions end the run\<close>


lemma main_aborts:
  assumes "loop_body loads dir [] = Inl e"
  shows "\<exists>e'. main loads (before @ dir # after) = \<lparr>stdout = [], status = 1, uncaught = Some e'\<rparr>"
  using driver_loop_raises [OF assms, of before after "[]"] main_uncaught by blast

lemma main_aborts_first:
  assumes "loop_body loads dir [] = Inl e"
    and "\<forall>p\<in>set before. \<exists>new. loop_body loads p [] = Inr new"
  shows "main loads (before @ dir # after) = \<lparr>stdout = [], status = 1, uncaught = Some e\<rparr>"
  using driver_loop_first_raise [OF assms, of after "[]"] by (rule main_uncaught)

text \<open>
  Claim C4. When the manifest of any one directory of the tree is not valid TOML, the run
  ends with an uncaught exception: status 1 and nothing on standard output, whatever the
  other directories hold and whatever mismatches were collected before. The exception is
  the parse error itself whenever the turns for the directories walked before the
  malformed manifest complete; otherwise it is the exception of an earlier turn.
\<close>

theorem malformed_manifest_aborts:
  assumes "loads (cargo_toml dir) = None"
  shows "(\<exists>e. main loads (before @ dir # after) = \<lparr>stdout = [], status = 1, uncaught = Some e\<rparr>) \<and>
         ((\<forall>p\<in>set before. \<exists>new. loop_body loads p [] = Inr new) \<longrightarrow>
            main loads (before @ dir # after) =
              \<lparr>stdout = [], status = 1, uncaught = Some TOMLDecodeError\<rparr>)"
proof -
  have raised: "loop_body loads dir [] = Inl TOMLDecodeError"
    using assms by (simp add: loop_body_def cargo_name_def)
  show ?thesis
    using main_aborts [OF raised, of before after] main_aborts_first [OF raised, of before after]
    by blast
qed

theorem malformed_manifest_aborts_witness:
  "main
     (\<lambda>t. if t = ''[lib'' then None
          else Some [(''package'', TTable [(''name'', TString t)]),
                     (''lib'', TTable [(''crate-type'', TArray [TString ''cdylib''])])])
     [\<lparr>parent = ''m/a'', cargo_toml = ''a'', earthfile = Some ''--out=x.wasm''\<rparr>,
      \<lparr>parent = ''m/b'', cargo_toml = ''[lib'', earthfile = None\<rparr>,
      \<lparr>parent = ''m/c'', cargo_toml = ''c'', earthfile = Some ''--out=c.wasm''\<rparr>]
   = \<lparr>stdout = [], status = 1, uncaught = Some TOMLDecodeError\<rparr>"
proof -
  let ?loads = "\<lambda>t. if t = ''[lib'' then None
          else Some [(''package'', TTable [(''name'', TString t)]),
                     (''lib'', TTable [(''crate-type'', TArray [TString ''cdylib''])])]"
  let ?a = "\<lparr>parent = ''m/a'', cargo_toml = ''a'', earthfile = Some ''--out=x.wasm''\<rparr>"
  let ?b = "\<lparr>parent = ''m/b'', cargo_toml = ''[lib'', earthfile = None\<rparr>"
  let ?c = "\<lparr>parent = ''m/c'', cargo_toml = ''c'', earthfile = Some ''--out=c.wasm''\<rparr>"
  have h: "?loads (cargo_toml ?b) = None" by simp
  have "loop_body ?loads ?a [] = Inr [mismatch_line ''m/a'' ''a'' ''x'']" by code_simp
  then have before: "\<forall>p\<in>set [?a]. \<exists>new. loop_body ?loads p [] = Inr new" by simp
  show ?thesis
    using malformed_manifest_aborts [of ?loads ?b "[?a]" "[?c]", OF h] before by simp
qed



section \<open>The normal form ignores punctuation and case\<close>















section \<open>The name a manifest declares\<close>

text \<open>
  Claim C9 as stated fails on an empty library name.
  \<^verbatim>\<open>lib.get("name") or data["package"]["name"]\<close> takes the package name also when the
  \<^verbatim>\<open>lib\<close> table has a \<^verbatim>\<open>name\<close> that is false in Python's sense, the empty string
  above all: the manifest below has the field \<^verbatim>\<open>name = ""\<close> in its \<^verbatim>\<open>lib\<close> table, and the
  parser returns the package name \<^verbatim>\<open>pkg\<close>, not the value of that field.
\<close>

theorem empty_lib_name_falls_back:
  "map_of [(''crate-type'', TArray [TString ''cdylib'']), (''name'', TString [])] ''name''
     = Some (TString []) \<and>
   cargo_name
     (map_of [(''manifest'',
               [(''package'', TTable [(''name'', TString ''pkg'')]),
                (''lib'', TTable [(''crate-type'', TArray [TString ''cdylib'']),
                                  (''name'', TString [])])])])
     ''manifest'' = Inr (Some (TString ''pkg'')) \<and>
   TString ''pkg'' \<noteq> TString []"
  by code_simp

lemma package_name_found:
  "map_of data ''package'' = Some (TTable package) \<Longrightarrow> map_of package ''name'' = Some n \<Longrightarrow>
   package_name data = Inr (Some n)"
  by (simp add: package_name_def)

text \<open>
  Claim C9, amended. For a manifest whose \<^verbatim>\<open>lib\<close> table lists \<^verbatim>\<open>cdylib\<close> in \<^verbatim>\<open>crate-type\<close>:
  the parser returns the value of \<^verbatim>\<open>name\<close> in the \<^verbatim>\<open>lib\<close> table when that field is present
  with a true value (for a string: not empty); when the field is missing or false it
  returns the \<^verbatim>\<open>name\<close> of the top-level \<^verbatim>\<open>package\<close> table. A line the loop appends for
  the directory is built from the string the parser returned and the name the scanner
  returned, as they are, not from their normal forms.
\<close>

theorem declared_name:
  assumes "loads text = Some data"
    and "map_of data ''lib'' = Some (TTable lib)"
    and "map_of lib ''crate-type'' = Some (TArray xs)" and "TString ''cdylib'' \<in> set xs"
  shows "(\<forall>v. map_of lib ''name'' = Some v \<and> truthy v \<longrightarrow> cargo_name loads text = Inr (Some v)) \<and>
         ((map_of lib ''name'' = None \<or> (\<exists>v. map_of lib ''name'' = Some v \<and> \<not> truthy v)) \<longrightarrow>
            (\<forall>package n. map_of data ''package'' = Some (TTable package) \<and>
                          map_of package ''name'' = Some n \<longrightarrow>
                          cargo_name loads text = Inr (Some n))) \<and>
         (\<forall>dir errors l.
            cargo_toml dir = text \<and> loop_body loads dir errors = Inr (errors @ [l]) \<longrightarrow>
            (\<exists>s e. cargo_name loads text = Inr (Some (TString s)) \<and> earthly_name dir = Some e \<and>
                   l = parent dir @ '': Cargo '' @ [apostrophe] @ s @ [apostrophe]
                         @ '' vs Earthly '' @ [apostrophe] @ e @ [apostrophe]))"
proof (intro conjI allI impI)
  fix v assume "map_of lib ''name'' = Some v \<and> truthy v"
  then show "cargo_name loads text = Inr (Some v)"
    using assms by (simp add: cargo_name_def)
next
  fix package n
  assume a: "map_of lib ''name'' = None \<or> (\<exists>v. map_of lib ''name'' = Some v \<and> \<not> truthy v)"
    and b: "map_of data ''package'' = Some (TTable package) \<and> map_of package ''name'' = Some n"
  have "cargo_name loads text = package_name data"
    using assms a by (auto simp: cargo_name_def)
  then show "cargo_name loads text = Inr (Some n)"
    using b package_name_found by simp
next
  fix dir errors l
  assume a: "cargo_toml dir = text \<and> loop_body loads dir errors = Inr (errors @ [l])"
  then have "loop_body loads dir [] = Inr [l]"
    using loop_body_appends [of loads dir errors] by (auto split: sum.splits)
  then obtain s e where "cargo_name loads (cargo_toml dir) = Inr (Some (TString s))"
    "earthly_name dir = Some e" "[l] = [mismatch_line (parent dir) s e]"
    using loop_body_new [of loads dir "[l]"] by auto
  then show "\<exists>s e. cargo_name loads text = Inr (Some (TString s)) \<and> earthly_name dir = Some e \<and>
                   l = parent dir @ '': Cargo '' @ [apostrophe] @ s @ [apostrophe]
                         @ '' vs Earthly '' @ [apostrophe] @ e @ [apostrophe]"
    using a by (auto simp: mismatch_line_def)
qed

theorem declared_name_witness:
  "cargo_name
     (\<lambda>t. Some [(''package'', TTable [(''name'', TString ''pkg'')]),
                (''lib'', TTable [(''crate-type'', TArray [TString ''cdylib'']),
                                  (''name'', TString t)])])
     ''My-Lib'' = Inr (Some (TString ''My-Lib'')) \<and>
   cargo_name
     (\<lambda>t. Some [(''package'', TTable [(''name'', TString ''pkg'')]),
                (''lib'', TTable [(''crate-type'', TArray [TString ''cdylib'']),
                                  (''name'', TString t)])])
     [] = Inr (Some (TString ''pkg'')) \<and>
   loop_body
     (\<lambda>t. Some [(''package'', TTable [(''name'', TString ''pkg'')]),
                (''lib'', TTable [(''crate-type'', TArray [TString ''cdylib'']),
                                  (''name'', TString t)])])
     \<lparr>parent = ''modules/x'', cargo_toml = ''My-Lib'', earthfile = Some ''--out=Other-1.wasm''\<rparr> []
   = Inr [''modules/x: Cargo '' @ [apostrophe] @ ''My-Lib'' @ [apostrophe]
            @ '' vs Earthly '' @ [apostrophe] @ ''Other-1'' @ [apostrophe]]"
proof -
  let ?loads = "\<lambda>t. Some [(''package'', TTable [(''name'', TString ''pkg'')]),
                (''lib'', TTable [(''crate-type'', TArray [TString ''cdylib'']),
                                  (''name'', TString t)])]"
  let ?lib = "\<lambda>t. [(''crate-type'', TArray [TString ''cdylib'']), (''name'', TString t)]"
  let ?data = "\<lambda>t. [(''package'', TTable [(''name'', TString ''pkg'')]), (''lib'', TTable (?lib t))]"
  let ?dir = "\<lparr>parent = ''modules/x'', cargo_toml = ''My-Lib'', earthfile = Some ''--out=Other-1.wasm''\<rparr>"
  have h1: "?loads t = Some (?data t)" for t by simp
  have h2: "map_of (?data t) ''lib'' = Some (TTable (?lib t))" for t by simp
  have h3: "map_of (?lib t) ''crate-type'' = Some (TArray [TString ''cdylib''])" for t by simp
  have h4: "TString ''cdylib'' \<in> set [TString ''cdylib'']" by simp
  note named = declared_name [of ?loads "''My-Lib''" "?data ''My-Lib''" "?lib ''My-Lib''", OF h1 h2 h3 h4]
  note unnamed = declared_name [of ?loads "[]" "?data []" "?lib []", OF h1 h2 h3 h4]
  have c1: "cargo_name ?loads ''My-Lib'' = Inr (Some (TString ''My-Lib''))"
  proof -
    have "map_of (?lib ''My-Lib'') ''name'' = Some (TString ''My-Lib'') \<and> truthy (TString ''My-Lib'')"
      by simp
    then show ?thesis using named by blast
  qed
  have c2: "cargo_name ?loads [] = Inr (Some (TString ''pkg''))"
  proof -
    have "map_of (?lib []) ''name'' = None \<or>
          (\<exists>v. map_of (?lib []) ''name'' = Some v \<and> \<not> truthy v)" by simp
    moreover have "map_of (?data []) ''package'' = Some (TTable [(''name'', TString ''pkg'')]) \<and>
          map_of [(''name'', TString ''pkg'')] ''name'' = Some (TString ''pkg'')" by simp
    ultimately show ?thesis using unnamed by blast
  qed
  have run: "loop_body ?loads ?dir [] = Inr ([] @ [mismatch_line ''modules/x'' ''My-Lib'' ''Other-1''])"
    by code_simp
  have "cargo_toml ?dir = ''My-Lib''" by simp
  then have "\<exists>s e. cargo_name ?loads ''My-Lib'' = Inr (Some (TString s)) \<and> earthly_name ?dir = Some e \<and>
      mismatch_line ''modules/x'' ''My-Lib'' ''Other-1'' =
        parent ?dir @ '': Cargo '' @ [apostrophe] @ s @ [apostrophe]
          @ '' vs Earthly '' @ [apostrophe] @ e @ [apostrophe]"
    using named run by blast
  then have c3: "loop_body ?loads ?dir [] =
      Inr [''modules/x: Cargo '' @ [apostrophe] @ ''My-Lib'' @ [apostrophe]
            @ '' vs Earthly '' @ [apostrophe] @ ''Other-1'' @ [apostrophe]]"
    using run by (simp add: mismatch_line_def)
  show ?thesis using c1 c2 c3 by blast
qed

end
